theory Spec2Isabelle
  imports Main
begin

section \<open>Common types\<close>

text \<open>
  Documents are keyed by a generated identifier (a Mongoose ObjectId). Only equality of
  identifiers is ever used (\<open>a.equals(b)\<close>, or comparison of their string forms), so an
  identifier is a natural number. A collection is a map from identifiers to documents;
  \<open>findById\<close> is the lookup and a successful \<open>save()\<close> stores the document back
  under its identifier.

  The numbers of the code are array lengths, small constants and clock readings in
  milliseconds, all integers far inside the range that a JavaScript number holds
  exactly; counts are natural numbers and dates are integers here.

  Write-only timestamps (\<open>votedAt\<close>, \<open>lastActivity\<close>, \<open>reportedAt\<close>, \<open>earnedAt\<close>) take
  part in no decision of the code below and are left out of the records. The one date
  that is read back, \<open>membershipExpiry\<close>, is kept, as milliseconds since the epoch.
\<close>

type_synonym objectId = nat
type_synonym date = int
type_synonym 'a collection = "objectId \<rightharpoonup> 'a"

text \<open>The exceptions the modelled code can raise.\<close>

datatype error =
    DuplicateReport   \<comment> \<open>\<open>Error('You have already reported this comment')\<close>\<close>
  | ReportNotFound    \<comment> \<open>\<open>Error('Report not found')\<close>\<close>
  | ValidationError   \<comment> \<open>\<open>save()\<close> rejects a value outside its schema enum\<close>
  | TypeError         \<comment> \<open>property read on \<open>null\<close>\<close>

text \<open>
  What a controller sends: \<open>res.status(code).json({success: false, message})\<close> on a
  rejection, \<open>res.status(code).json({success: true, message, data})\<close> otherwise. An
  exception that leaves the controller is handed by \<open>asyncHandler\<close> to \<open>next\<close>; what
  is sent then is decided outside these sources, so the model records the exception.
\<close>

datatype 'd response =
    Failure (statusCode: nat) (message: string)
  | Success (statusCode: nat) (message: string) (payload: 'd)
  | Thrown error


section \<open>Post: the voter list and its cached counts (models/Post.js)\<close>

datatype voteType = Up | Down

datatype visibility = Public | Private

record voter =
  userId :: objectId
  voteType :: voteType

record post =
  author :: objectId
  upVote :: nat
  downVote :: nat
  voters :: "voter list"
  visibility :: visibility

text \<open>
  \<open>Post.create\<close> in \<open>createPost\<close> passes neither counts nor voters, so a new post takes
  the schema defaults.
\<close>

definition newPost :: "objectId \<Rightarrow> post" where
  "newPost a = \<lparr>author = a, upVote = 0, downVote = 0, voters = [], visibility = Public\<rparr>"

text \<open>\<open>postSchema.methods.vote\<close>\<close>

definition vote :: "post \<Rightarrow> objectId \<Rightarrow> voteType \<Rightarrow> post" where
  "vote p uid vt =
     (let vs = filter (\<lambda>v. userId v \<noteq> uid) (voters p);
          currentUpVotes = length (filter (\<lambda>v. voteType v = Up) vs);
          currentDownVotes = length (filter (\<lambda>v. voteType v = Down) vs);
          vs' = vs @ [\<lparr>userId = uid, voteType = vt\<rparr>]
      in if vt = Up
         then p\<lparr>voters := vs', upVote := currentUpVotes + 1, downVote := currentDownVotes\<rparr>
         else p\<lparr>voters := vs', downVote := currentDownVotes + 1, upVote := currentUpVotes\<rparr>)"

text \<open>\<open>postSchema.methods.removeVote\<close>\<close>

definition removeVote :: "post \<Rightarrow> objectId \<Rightarrow> post" where
  "removeVote p uid =
     (let vs = filter (\<lambda>v. userId v \<noteq> uid) (voters p)
      in p\<lparr>voters := vs,
           upVote := length (filter (\<lambda>v. voteType v = Up) vs),
           downVote := length (filter (\<lambda>v. voteType v = Down) vs)\<rparr>)"

text \<open>\<open>postSchema.methods.getUserVote\<close>: the vote type of the first entry of the user.\<close>

definition getUserVote :: "post \<Rightarrow> objectId \<Rightarrow> voteType option" where
  "getUserVote p uid = map_option voteType (find (\<lambda>v. userId v = uid) (voters p))"

text \<open>A sequence of calls of the two mutating methods on one post.\<close>

datatype post_op = Vote objectId voteType | RemoveVote objectId

fun apply_post_op :: "post \<Rightarrow> post_op \<Rightarrow> post" where
  "apply_post_op p (Vote uid vt) = vote p uid vt"
| "apply_post_op p (RemoveVote uid) = removeVote p uid"

definition apply_post_ops :: "post \<Rightarrow> post_op list \<Rightarrow> post" where
  "apply_post_ops p ops = foldl apply_post_op p ops"

text \<open>
  The data-model invariant of a post: the two counts are the numbers of up and down
  entries of the voter list, and no user has two entries.
\<close>

definition post_inv :: "post \<Rightarrow> bool" where
  "post_inv p \<longleftrightarrow>
     upVote p = length (filter (\<lambda>v. voteType v = Up) (voters p)) \<and>
     downVote p = length (filter (\<lambda>v. voteType v = Down) (voters p)) \<and>
     distinct (map userId (voters p))"


text \<open>
  \<open>votePost\<close> (controllers/postController.js). The request carries the post id of the
  route, the authenticated user's id and the body's \<open>voteType\<close>, a string that may be
  missing. The result is the response and the post collection after the request.
\<close>

definition parse_voteType :: "string option \<Rightarrow> voteType option" where
  "parse_voteType b =
     (case b of
        None \<Rightarrow> None
      | Some s \<Rightarrow> if s = ''up'' then Some Up else if s = ''down'' then Some Down else None)"

datatype vote_data =
  VoteData (respUpVote: nat) (respDownVote: nat) (respVoteDifference: int)
           (respUserVote: "voteType option")

definition vote_data_of :: "post \<Rightarrow> voteType option \<Rightarrow> vote_data" where
  "vote_data_of p uv = VoteData (upVote p) (downVote p) (int (upVote p) - int (downVote p)) uv"

definition votePost ::
  "post collection \<Rightarrow> objectId \<Rightarrow> objectId \<Rightarrow> string option
     \<Rightarrow> vote_data response \<times> post collection" where
  "votePost db pid uid body =
     (case parse_voteType body of
        None \<Rightarrow> (Failure 400 ''Please provide valid vote type (up or down)'', db)
      | Some vt \<Rightarrow>
          (case db pid of
             None \<Rightarrow> (Failure 404 ''Post not found'', db)
           | Some p \<Rightarrow>
               if visibility p = Private \<and> author p \<noteq> uid
               then (Failure 403 ''Cannot vote on private post'', db)
               else if getUserVote p uid = Some vt
               then (let p' = removeVote p uid
                     in (Success 200 (if vt = Up then ''Upvote removed'' else ''Downvote removed'')
                           (vote_data_of p' None),
                         db(pid \<mapsto> p')))
               else (let p' = vote p uid vt
                     in (Success 200
                           (if vt = Up then ''Upvoted successfully'' else ''Downvoted successfully'')
                           (vote_data_of p' (Some vt)),
                         db(pid \<mapsto> p')))))"

text \<open>The same request submitted twice in succession; the collection after both.\<close>

definition votePost_twice ::
  "post collection \<Rightarrow> objectId \<Rightarrow> objectId \<Rightarrow> string option \<Rightarrow> post collection" where
  "votePost_twice db pid uid body =
     snd (votePost (snd (votePost db pid uid body)) pid uid body)"


section \<open>Comment: reports and moderation (models/Comment.js)\<close>

datatype reportStatus = Pending | Reviewed | Resolved | Dismissed

datatype moderationStatus = Approved | PendingModeration | Flagged | Removed

text \<open>A report subdocument; \<open>report_id\<close> is its generated \<open>_id\<close>.\<close>

record report =
  report_id :: objectId
  reportedBy :: objectId
  feedback :: string
  status :: reportStatus

record comment =
  isActive :: bool
  reports :: "report list"
  isReported :: bool
  moderationStatus :: moderationStatus

text \<open>The values the schema allows for \<open>feedback\<close>.\<close>

definition feedback_enum :: "string list" where
  "feedback_enum =
     [''Inappropriate content'', ''Spam or promotional content'', ''Harassment or bullying'',
      ''False information'', ''Off-topic discussion'']"

text \<open>The \<open>pre('save')\<close> hook: \<open>this.isReported = this.reports.length > 0\<close>.\<close>

definition comment_pre_save :: "comment \<Rightarrow> comment" where
  "comment_pre_save c = c\<lparr>isReported := (length (reports c) > 0)\<rparr>"

text \<open>
  \<open>Comment.create\<close> in \<open>createComment\<close> passes no report, flag or status: the schema
  defaults, saved.
\<close>

definition newComment :: comment where
  "newComment =
     comment_pre_save \<lparr>isActive = True, reports = [], isReported = False,
                       moderationStatus = Approved\<rparr>"

text \<open>
  Each instance method below ends in \<open>this.save()\<close> or throws before it. Its model takes
  the stored document and returns the exception, if any, together with the document as
  stored after the call: the updated one when \<open>save()\<close> went through, the old one
  otherwise.

  \<open>commentSchema.methods.addReport\<close>. The id of the pushed subdocument is generated by
  the library and is a parameter here. \<open>save()\<close> validates the pushed \<open>feedback\<close>
  against the schema enum.
\<close>

definition addReport ::
  "comment \<Rightarrow> objectId \<Rightarrow> string \<Rightarrow> objectId \<Rightarrow> error option \<times> comment" where
  "addReport c uid fb rid =
     (case find (\<lambda>r. reportedBy r = uid) (reports c) of
        Some existingReport \<Rightarrow> (Some DuplicateReport, c)
      | None \<Rightarrow>
          (let c' = c\<lparr>reports := reports c @
                          [\<lparr>report_id = rid, reportedBy = uid, feedback = fb, status = Pending\<rparr>],
                       isReported := True\<rparr>
           in if fb \<in> set feedback_enum then (None, comment_pre_save c')
              else (Some ValidationError, c)))"

text \<open>
  \<open>this.reports.id(reportId)\<close> is the first subdocument with that id; its status is
  assigned in place.
\<close>

fun set_report_status :: "objectId \<Rightarrow> reportStatus \<Rightarrow> report list \<Rightarrow> report list option" where
  "set_report_status rid st [] = None"
| "set_report_status rid st (r # rs) =
     (if report_id r = rid then Some (r\<lparr>status := st\<rparr> # rs)
      else map_option ((#) r) (set_report_status rid st rs))"

text \<open>\<open>commentSchema.methods.updateReportStatus\<close>\<close>

definition updateReportStatus ::
  "comment \<Rightarrow> objectId \<Rightarrow> reportStatus \<Rightarrow> error option \<times> comment" where
  "updateReportStatus c rid st =
     (case set_report_status rid st (reports c) of
        None \<Rightarrow> (Some ReportNotFound, c)
      | Some rs \<Rightarrow> (None, comment_pre_save (c\<lparr>reports := rs\<rparr>)))"

text \<open>\<open>commentSchema.methods.moderate\<close>; the moderator id is accepted and not used.\<close>

definition moderate ::
  "comment \<Rightarrow> moderationStatus \<Rightarrow> objectId \<Rightarrow> error option \<times> comment" where
  "moderate c st moderatorId =
     (let c1 = c\<lparr>moderationStatus := st\<rparr>;
          c2 = (if st = Removed then c1\<lparr>isActive := False\<rparr> else c1)
      in (None, comment_pre_save c2))"


section \<open>Comment controllers (commentController.js, adminController.js)\<close>

text \<open>
  \<open>reportComment\<close>: the comment id of the route, the authenticated user's id, the
  body's \<open>feedback\<close> (possibly missing; the empty string is falsy too) and the id the
  library will give the new report.
\<close>

definition reportComment ::
  "comment collection \<Rightarrow> objectId \<Rightarrow> objectId \<Rightarrow> string option \<Rightarrow> objectId
     \<Rightarrow> unit response \<times> comment collection" where
  "reportComment db cid uid body rid =
     (case body of
        None \<Rightarrow> (Failure 400 ''Please provide feedback for the report'', db)
      | Some fb \<Rightarrow>
          if fb = [] then (Failure 400 ''Please provide feedback for the report'', db)
          else
            (case db cid of
               None \<Rightarrow> (Failure 404 ''Comment not found'', db)
             | Some c \<Rightarrow>
                 if \<not> isActive c then (Failure 400 ''Cannot report an inactive comment'', db)
                 else
                   (case addReport c uid fb rid of
                      (None, c') \<Rightarrow> (Success 200 ''Comment reported successfully'' (), db(cid \<mapsto> c'))
                    | (Some DuplicateReport, c') \<Rightarrow>
                        (Failure 400 ''You have already reported this comment'', db(cid \<mapsto> c'))
                    | (Some e, c') \<Rightarrow> (Thrown e, db(cid \<mapsto> c')))))"

text \<open>The admin actions and the table both admin controllers switch on.\<close>

datatype action = Approve | Flag | Remove

definition parse_action :: "string option \<Rightarrow> action option" where
  "parse_action b =
     (case b of
        None \<Rightarrow> None
      | Some s \<Rightarrow> if s = ''approve'' then Some Approve
                  else if s = ''flag'' then Some Flag
                  else if s = ''remove'' then Some Remove
                  else None)"

fun action_name :: "action \<Rightarrow> string" where
  "action_name Approve = ''approve''"
| "action_name Flag = ''flag''"
| "action_name Remove = ''remove''"

fun action_moderationStatus :: "action \<Rightarrow> moderationStatus" where
  "action_moderationStatus Approve = Approved"
| "action_moderationStatus Flag = Flagged"
| "action_moderationStatus Remove = Removed"

fun action_reportStatus :: "action \<Rightarrow> reportStatus" where
  "action_reportStatus Approve = Dismissed"
| "action_reportStatus Flag = Reviewed"
| "action_reportStatus Remove = Resolved"

text \<open>
  \<open>handleReportedComment\<close>, after the comment is found: \<open>moderate\<close> (a first save), then
  either \<open>updateReportStatus\<close> for the report named in the body or, with none named, every
  pending report set to the action's status and a second save.
\<close>

definition resolve_pending :: "reportStatus \<Rightarrow> report list \<Rightarrow> report list" where
  "resolve_pending st rs = map (\<lambda>r. if status r = Pending then r\<lparr>status := st\<rparr> else r) rs"

definition handle_action ::
  "comment \<Rightarrow> action \<Rightarrow> objectId option \<Rightarrow> objectId \<Rightarrow> error option \<times> comment" where
  "handle_action c a reportId adminId =
     (case moderate c (action_moderationStatus a) adminId of
        (Some e, c1) \<Rightarrow> (Some e, c1)
      | (None, c1) \<Rightarrow>
          (case reportId of
             Some rid \<Rightarrow> updateReportStatus c1 rid (action_reportStatus a)
           | None \<Rightarrow>
               (None, comment_pre_save
                        (c1\<lparr>reports := resolve_pending (action_reportStatus a) (reports c1)\<rparr>))))"

definition handleReportedComment ::
  "comment collection \<Rightarrow> objectId \<Rightarrow> string option \<Rightarrow> objectId option \<Rightarrow> objectId
     \<Rightarrow> comment response \<times> comment collection" where
  "handleReportedComment db cid actionBody reportId adminId =
     (case parse_action actionBody of
        None \<Rightarrow> (Failure 400 ''Please provide valid action (approve, flag, remove)'', db)
      | Some a \<Rightarrow>
          (case db cid of
             None \<Rightarrow> (Failure 404 ''Comment not found'', db)
           | Some c \<Rightarrow>
               (case handle_action c a reportId adminId of
                  (Some e, c') \<Rightarrow> (Thrown e, db(cid \<mapsto> c'))
                | (None, c') \<Rightarrow>
                    (Success 200 (''Comment '' @ action_name a @ ''ed successfully'') c',
                     db(cid \<mapsto> c')))))"

text \<open>
  \<open>bulkActionReportedComments\<close> writes through \<open>Comment.updateMany\<close> with the update
  \<open>{moderationStatus, 'reports.$[].status': reportStatus}\<close>: on every comment whose id is
  listed, the moderation status and the status of every report are set. No document is
  loaded, so neither \<open>moderate\<close> nor the \<open>pre('save')\<close> hook runs. The body's
  \<open>commentIds\<close> is \<open>None\<close> when missing or not an array. Of the response data, the
  store's count of modified documents is left out.
\<close>

definition bulk_update :: "moderationStatus \<Rightarrow> reportStatus \<Rightarrow> comment \<Rightarrow> comment" where
  "bulk_update ms rs c = c\<lparr>moderationStatus := ms, reports := map (\<lambda>r. r\<lparr>status := rs\<rparr>) (reports c)\<rparr>"

definition updateMany ::
  "comment collection \<Rightarrow> objectId list \<Rightarrow> (comment \<Rightarrow> comment) \<Rightarrow> comment collection" where
  "updateMany db ids f = (\<lambda>i. if i \<in> set ids then map_option f (db i) else db i)"

definition bulkActionReportedComments ::
  "comment collection \<Rightarrow> objectId list option \<Rightarrow> string option
     \<Rightarrow> (action \<times> nat) response \<times> comment collection" where
  "bulkActionReportedComments db commentIds actionBody =
     (case commentIds of
        None \<Rightarrow> (Failure 400 ''Please provide an array of comment IDs'', db)
      | Some ids \<Rightarrow>
          if ids = [] then (Failure 400 ''Please provide an array of comment IDs'', db)
          else
            (case parse_action actionBody of
               None \<Rightarrow> (Failure 400 ''Please provide valid action (approve, flag, remove)'', db)
             | Some a \<Rightarrow>
                 (Success 200 ''Bulk action completed.'' (a, length ids),
                  updateMany db ids
                    (bulk_update (action_moderationStatus a) (action_reportStatus a)))))"

text \<open>
  The operations that write a comment, on one stored comment: the result is the
  comment as stored afterwards. \<open>SoftDelete\<close> is \<open>deleteComment\<close>'s
  \<open>comment.isActive = false; comment.save()\<close>, \<open>EditContent\<close> is \<open>updateComment\<close>'s
  assignment of the (unmodelled) content and save, \<open>BulkAction\<close> is the update of
  \<open>bulkActionReportedComments\<close>.
\<close>

datatype comment_op =
    AddReport objectId string objectId
  | UpdateReportStatus objectId reportStatus
  | Moderate moderationStatus objectId
  | HandleAction action "objectId option" objectId
  | BulkAction action
  | SoftDelete
  | EditContent

fun apply_comment_op :: "comment \<Rightarrow> comment_op \<Rightarrow> comment" where
  "apply_comment_op c (AddReport uid fb rid) = snd (addReport c uid fb rid)"
| "apply_comment_op c (UpdateReportStatus rid st) = snd (updateReportStatus c rid st)"
| "apply_comment_op c (Moderate st m) = snd (moderate c st m)"
| "apply_comment_op c (HandleAction a reportId m) = snd (handle_action c a reportId m)"
| "apply_comment_op c (BulkAction a) =
     bulk_update (action_moderationStatus a) (action_reportStatus a) c"
| "apply_comment_op c SoftDelete = comment_pre_save (c\<lparr>isActive := False\<rparr>)"
| "apply_comment_op c EditContent = comment_pre_save c"

definition apply_comment_ops :: "comment \<Rightarrow> comment_op list \<Rightarrow> comment" where
  "apply_comment_ops c ops = foldl apply_comment_op c ops"


section \<open>User: membership (models/User.js)\<close>

datatype membership = Bronze | Gold

record badge =
  badgeType :: membership

record user =
  membership :: membership
  membershipExpiry :: "date option"
  badges :: "badge list"

text \<open>
  \<open>User.create\<close> passes neither membership nor badges; the \<open>pre('save')\<close> hook pushes the
  bronze badge on a new document.
\<close>

definition newUser :: user where
  "newUser = \<lparr>membership = Bronze, membershipExpiry = None, badges = [\<lparr>badgeType = Bronze\<rparr>]\<rparr>"

text \<open>
  \<open>userSchema.methods.hasMembership\<close>; \<open>now\<close> is the clock reading of \<open>new Date()\<close>. A
  stored expiry is a Date object, which is truthy, so \<open>!this.membershipExpiry\<close> holds
  exactly when none is stored.
\<close>

definition hasMembership :: "user \<Rightarrow> date \<Rightarrow> bool" where
  "hasMembership u now \<longleftrightarrow>
     membership u = Gold \<and>
     (case membershipExpiry u of None \<Rightarrow> True | Some expiry \<Rightarrow> expiry > now)"

text \<open>\<open>userSchema.methods.upgradeToGold\<close>; \<open>now\<close> is the reading of \<open>Date.now()\<close>.\<close>

definition upgradeToGold :: "user \<Rightarrow> date \<Rightarrow> user" where
  "upgradeToGold u now =
     (let u1 = u\<lparr>membership := Gold,
                  membershipExpiry := Some (now + 365 * 24 * 60 * 60 * 1000)\<rparr>;
          hasGoldBadge = list_ex (\<lambda>b. badgeType b = Gold) (badges u1)
      in if \<not> hasGoldBadge then u1\<lparr>badges := badges u1 @ [\<lparr>badgeType = Gold\<rparr>]\<rparr> else u1)"

text \<open>Successive calls, one per clock reading of the list.\<close>

definition upgradeToGold_calls :: "user \<Rightarrow> date list \<Rightarrow> user" where
  "upgradeToGold_calls u ts = foldl upgradeToGold u ts"

definition goldBadges :: "user \<Rightarrow> nat" where
  "goldBadges u = length (filter (\<lambda>b. badgeType b = Gold) (badges u))"


section \<open>User controllers (authController.js, userController.js)\<close>

text \<open>
  \<open>canPost\<close>: \<open>req.user\<close>, the clock and the number the store returns for
  \<open>Post.countDocuments({author: req.user._id, isActive: true})\<close>. The handler writes
  nothing, so its model returns a response only. The response has no message.
\<close>

datatype postLimit = Unlimited | Limit nat

record canPost_data =
  canCreatePost :: bool
  currentPosts :: nat
  postLimit :: postLimit
  userMembership :: membership
  reason :: "string option"

definition canPost :: "user \<Rightarrow> date \<Rightarrow> nat \<Rightarrow> canPost_data response" where
  "canPost u now postCount =
     (let hasGoldMembership = hasMembership u now;
          can = (hasGoldMembership \<or> postCount < 5)
      in Success 200 []
           \<lparr>canCreatePost = can,
            currentPosts = postCount,
            postLimit = (if hasGoldMembership then Unlimited else Limit 5),
            userMembership = membership u,
            reason = (if \<not> can
                      then Some ''Post limit reached. Upgrade to Gold membership for unlimited posts.''
                      else None)\<rparr>)"

text \<open>
  \<open>upgradeMembership\<close>: the user is read again from the store by id; reading
  \<open>membership\<close> of a missing user throws.
\<close>

definition upgradeMembership ::
  "user collection \<Rightarrow> objectId \<Rightarrow> date \<Rightarrow> user response \<times> user collection" where
  "upgradeMembership users uid now =
     (case users uid of
        None \<Rightarrow> (Thrown TypeError, users)
      | Some u \<Rightarrow>
          if membership u = Gold
          then (Failure 400 ''User already has gold membership'', users)
          else (let u' = upgradeToGold u now
                in (Success 200 ''Successfully upgraded to Gold membership!'' u',
                    users(uid \<mapsto> u'))))"


section \<open>Properties of voting\<close>

lemma newPost_inv: "post_inv (newPost a)"
  by (simp add: post_inv_def newPost_def)

lemma distinct_filter_userId:
  "distinct (map userId vs) \<Longrightarrow> distinct (map userId (filter (\<lambda>v. userId v \<noteq> uid) vs))"
  by (induction vs) auto

lemma vote_inv: "distinct (map userId (voters p)) \<Longrightarrow> post_inv (vote p uid vt)"
  by (cases vt) (auto simp: post_inv_def vote_def Let_def distinct_filter_userId)

lemma removeVote_inv: "distinct (map userId (voters p)) \<Longrightarrow> post_inv (removeVote p uid)"
  by (simp add: post_inv_def removeVote_def Let_def distinct_filter_userId)

lemma apply_post_op_inv:
  assumes "post_inv p"
  shows "post_inv (apply_post_op p x)"
proof -
  from assms have d: "distinct (map userId (voters p))"
    by (simp add: post_inv_def)
  show ?thesis
    by (cases x) (simp_all add: vote_inv [OF d] removeVote_inv [OF d])
qed

lemma apply_post_ops_inv: "post_inv p \<Longrightarrow> post_inv (apply_post_ops p ops)"
  unfolding apply_post_ops_def
  by (induction ops arbitrary: p) (simp_all add: apply_post_op_inv)

lemma up_plus_down:
  "length (filter (\<lambda>v. voteType v = Up) vs) + length (filter (\<lambda>v. voteType v = Down) vs)
     = length vs"
proof (induction vs)
  case Nil
  show ?case by simp
next
  case (Cons v vs)
  then show ?case by (cases "voteType v") simp_all
qed

lemma post_inv_total:
  assumes "post_inv p"
  shows "upVote p + downVote p = card (userId ` set (voters p))"
proof -
  have "card (userId ` set (voters p)) = length (map userId (voters p))"
    using assms distinct_card [of "map userId (voters p)"] by (simp add: post_inv_def)
  then show ?thesis
    using assms up_plus_down [of "voters p"] by (simp add: post_inv_def)
qed

text \<open>
  Whatever the post was, after a call of either method its counts are those of its
  voter list; only the absence of duplicates relies on the post it started from.
\<close>

lemma counts_after_call:
  "upVote (apply_post_op p x) = length (filter (\<lambda>v. voteType v = Up) (voters (apply_post_op p x)))"
  "downVote (apply_post_op p x)
     = length (filter (\<lambda>v. voteType v = Down) (voters (apply_post_op p x)))"
proof -
  show "upVote (apply_post_op p x)
          = length (filter (\<lambda>v. voteType v = Up) (voters (apply_post_op p x)))"
  proof (cases x)
    case (Vote uid vt)
    then show ?thesis by (cases vt) (simp_all add: vote_def Let_def)
  next
    case (RemoveVote uid)
    then show ?thesis by (simp add: removeVote_def Let_def)
  qed
  show "downVote (apply_post_op p x)
          = length (filter (\<lambda>v. voteType v = Down) (voters (apply_post_op p x)))"
  proof (cases x)
    case (Vote uid vt)
    then show ?thesis by (cases vt) (simp_all add: vote_def Let_def)
  next
    case (RemoveVote uid)
    then show ?thesis by (simp add: removeVote_def Let_def)
  qed
qed

text \<open>Every request to \<open>votePost\<close> keeps the invariant on every stored post.\<close>

lemma votePost_inv:
  assumes "\<forall>i q. db i = Some q \<longrightarrow> post_inv q"
    and "snd (votePost db pid uid body) i = Some q"
  shows "post_inv q"
proof (cases "i = pid")
  case False
  then have "snd (votePost db pid uid body) i = db i"
    by (auto simp: votePost_def Let_def split: option.splits)
  with assms show ?thesis by simp
next
  case True
  show ?thesis
  proof (cases "snd (votePost db pid uid body) = db")
    case True
    with assms show ?thesis by simp
  next
    case False
    then obtain p vt where p: "db pid = Some p"
      and q: "q = removeVote p uid \<or> q = vote p uid vt"
      using assms(2) \<open>i = pid\<close>
      by (auto simp: votePost_def Let_def split: option.splits if_splits)
    from assms(1) p have "distinct (map userId (voters p))"
      by (auto simp: post_inv_def)
    with q show ?thesis
      by (auto simp: vote_inv removeVote_inv)
  qed
qed

text \<open>
  C1. Starting from a post whose counts agree with its voter list and whose voter list
  names no user twice (as a newly created post does), after any sequence of
  \<open>vote\<close> and \<open>removeVote\<close> calls \<open>upVote\<close> is the number of up entries, \<open>downVote\<close> the
  number of down entries, no user id occurs twice in the voter list, and
  \<open>upVote + downVote\<close> is the number of distinct voters.
\<close>

theorem vote_sequence_invariant:
  assumes "post_inv p"
  shows "upVote (apply_post_ops p ops)
           = length (filter (\<lambda>v. voteType v = Up) (voters (apply_post_ops p ops)))
       \<and> downVote (apply_post_ops p ops)
           = length (filter (\<lambda>v. voteType v = Down) (voters (apply_post_ops p ops)))
       \<and> distinct (map userId (voters (apply_post_ops p ops)))
       \<and> upVote (apply_post_ops p ops) + downVote (apply_post_ops p ops)
           = card (userId ` set (voters (apply_post_ops p ops)))"
proof -
  have inv: "post_inv (apply_post_ops p ops)"
    using assms by (rule apply_post_ops_inv)
  from inv post_inv_total [OF inv] show ?thesis
    by (simp add: post_inv_def)
qed

theorem vote_sequence_invariant_witness:
  "post_inv (newPost 1)
   \<and> upVote (apply_post_ops (newPost 1) [Vote 2 Up, Vote 3 Down, Vote 2 Down, RemoveVote 3])
       = length (filter (\<lambda>v. voteType v = Up)
           (voters (apply_post_ops (newPost 1) [Vote 2 Up, Vote 3 Down, Vote 2 Down, RemoveVote 3])))
   \<and> downVote (apply_post_ops (newPost 1) [Vote 2 Up, Vote 3 Down, Vote 2 Down, RemoveVote 3])
       = length (filter (\<lambda>v. voteType v = Down)
           (voters (apply_post_ops (newPost 1) [Vote 2 Up, Vote 3 Down, Vote 2 Down, RemoveVote 3])))
   \<and> distinct (map userId
         (voters (apply_post_ops (newPost 1) [Vote 2 Up, Vote 3 Down, Vote 2 Down, RemoveVote 3])))
   \<and> upVote (apply_post_ops (newPost 1) [Vote 2 Up, Vote 3 Down, Vote 2 Down, RemoveVote 3])
       + downVote (apply_post_ops (newPost 1) [Vote 2 Up, Vote 3 Down, Vote 2 Down, RemoveVote 3])
       = card (userId ` set
           (voters (apply_post_ops (newPost 1) [Vote 2 Up, Vote 3 Down, Vote 2 Down, RemoveVote 3])))"
proof -
  have h: "post_inv (newPost 1)"
    by (simp add: post_inv_def newPost_def)
  from h vote_sequence_invariant [OF h, of "[Vote 2 Up, Vote 3 Down, Vote 2 Down, RemoveVote 3]"]
  show ?thesis by blast
qed

lemma getUserVote_None: "getUserVote p uid = None \<longleftrightarrow> uid \<notin> userId ` set (voters p)"
  by (auto simp: getUserVote_def find_None_iff)

lemma filter_absent: "uid \<notin> userId ` set vs \<Longrightarrow> filter (\<lambda>v. userId v \<noteq> uid) vs = vs"
  by (induction vs) auto

lemma find_snoc_absent:
  "\<forall>x \<in> set xs. \<not> P x \<Longrightarrow> P y \<Longrightarrow> find P (xs @ [y]) = Some y"
  by (induction xs) simp_all

lemma getUserVote_vote: "getUserVote (vote p uid vt) uid = Some vt"
  by (cases vt) (simp_all add: getUserVote_def vote_def Let_def find_snoc_absent)

lemma removeVote_vote:
  assumes "uid \<notin> userId ` set (voters p)"
    and "upVote p = length (filter (\<lambda>v. voteType v = Up) (voters p))"
    and "downVote p = length (filter (\<lambda>v. voteType v = Down) (voters p))"
  shows "removeVote (vote p uid vt) uid = p"
  using assms by (cases vt) (simp_all add: removeVote_def vote_def Let_def filter_absent)

text \<open>
  C7 as stated fails. On a new post user 2 has voted down, so the post has one down
  entry and \<open>downVote = 1\<close>. User 2 now submits \<open>up\<close> twice: the first request replaces
  the down vote by an up vote, the second retracts it, and \<open>downVote\<close> ends at 0, one
  below its value before the two requests.
\<close>

theorem votePost_twice_counterexample:
  "map_option downVote
     (votePost_twice
        [7 \<mapsto> \<lparr>author = 1, upVote = 0, downVote = 1,
                 voters = [\<lparr>userId = 2, voteType = Down\<rparr>], visibility = Public\<rparr>]
        7 2 (Some ''up'') 7)
   \<noteq> map_option downVote
       ([7 \<mapsto> \<lparr>author = 1, upVote = 0, downVote = 1,
                 voters = [\<lparr>userId = 2, voteType = Down\<rparr>], visibility = Public\<rparr>] 7)"
  by (simp add: votePost_twice_def votePost_def parse_voteType_def getUserVote_def vote_def
      removeVote_def vote_data_of_def Let_def)

text \<open>
  The two requests when both are admitted: the first is answered as a vote and stores
  the vote, the second is answered as a removal and stores the post as it was.
\<close>

lemma votePost_vote_then_remove:
  assumes "db pid = Some p"
    and "visibility p = Public \<or> author p = uid"
    and "upVote p = length (filter (\<lambda>v. voteType v = Up) (voters p))"
    and "downVote p = length (filter (\<lambda>v. voteType v = Down) (voters p))"
    and "getUserVote p uid = None"
    and "parse_voteType body = Some vt"
  shows "votePost db pid uid body
           = (Success 200 (if vt = Up then ''Upvoted successfully'' else ''Downvoted successfully'')
                (vote_data_of (vote p uid vt) (Some vt)),
              db(pid \<mapsto> vote p uid vt))"
    and "votePost (db(pid \<mapsto> vote p uid vt)) pid uid body
           = (Success 200 (if vt = Up then ''Upvote removed'' else ''Downvote removed'')
                (vote_data_of p None),
              db)"
proof -
  from assms(5) have absent: "uid \<notin> userId ` set (voters p)"
    by (simp add: getUserVote_None)
  from assms(2) have ok: "\<not> (visibility p = Private \<and> author p \<noteq> uid)"
    by auto
  let ?p1 = "vote p uid vt"
  show "votePost db pid uid body
          = (Success 200 (if vt = Up then ''Upvoted successfully'' else ''Downvoted successfully'')
               (vote_data_of ?p1 (Some vt)), db(pid \<mapsto> ?p1))"
    using assms(1,5,6) ok by (simp add: votePost_def Let_def)
  have vis: "visibility ?p1 = visibility p" "author ?p1 = author p"
    by (simp_all add: vote_def Let_def)
  have restored: "removeVote ?p1 uid = p"
    using absent assms(3,4) by (rule removeVote_vote)
  have same: "(db(pid \<mapsto> ?p1))(pid \<mapsto> p) = db"
    using assms(1) by (simp add: map_upd_triv)
  show "votePost (db(pid \<mapsto> ?p1)) pid uid body
          = (Success 200 (if vt = Up then ''Upvote removed'' else ''Downvote removed'')
               (vote_data_of p None), db)"
    using assms(6) ok vis restored same by (simp add: votePost_def Let_def getUserVote_vote)
qed

lemma votePost_rejected_unchanged:
  assumes "db pid = Some p"
    and "parse_voteType body = None \<or> (visibility p = Private \<and> author p \<noteq> uid)"
  shows "snd (votePost db pid uid body) = db"
  using assms by (auto simp: votePost_def split: option.splits)

text \<open>
  C7, amended. For a post whose counts agree with its voter list and a user with no
  entry in its voter list, submitting the same vote type twice in succession leaves the
  post as it was before the first request: \<open>upVote\<close> and \<open>downVote\<close> have their values
  from before the vote and the user is not in the voter list. When the requests are
  admitted (vote type \<open>up\<close> or \<open>down\<close>, post public or the user's own) the first is
  answered as a vote and the second as its removal.
\<close>

theorem votePost_twice_restores:
  assumes "db pid = Some p"
    and "upVote p = length (filter (\<lambda>v. voteType v = Up) (voters p))"
    and "downVote p = length (filter (\<lambda>v. voteType v = Down) (voters p))"
    and "getUserVote p uid = None"
  shows "votePost_twice db pid uid body = db
       \<and> (\<exists>p2. votePost_twice db pid uid body pid = Some p2
              \<and> upVote p2 = upVote p \<and> downVote p2 = downVote p
              \<and> uid \<notin> userId ` set (voters p2))
       \<and> (\<forall>vt. parse_voteType body = Some vt \<and> (visibility p = Public \<or> author p = uid)
              \<longrightarrow> fst (votePost db pid uid body)
                    = Success 200
                        (if vt = Up then ''Upvoted successfully'' else ''Downvoted successfully'')
                        (vote_data_of (vote p uid vt) (Some vt))
                \<and> getUserVote (vote p uid vt) uid = Some vt
                \<and> snd (votePost db pid uid body) = db(pid \<mapsto> vote p uid vt)
                \<and> fst (votePost (snd (votePost db pid uid body)) pid uid body)
                    = Success 200
                        (if vt = Up then ''Upvote removed'' else ''Downvote removed'')
                        (vote_data_of p None))"
proof -
  from assms(4) have absent: "uid \<notin> userId ` set (voters p)"
    by (simp add: getUserVote_None)
  have admitted:
    "fst (votePost db pid uid body)
       = Success 200 (if vt = Up then ''Upvoted successfully'' else ''Downvoted successfully'')
           (vote_data_of (vote p uid vt) (Some vt))
     \<and> snd (votePost db pid uid body) = db(pid \<mapsto> vote p uid vt)
     \<and> fst (votePost (snd (votePost db pid uid body)) pid uid body)
         = Success 200 (if vt = Up then ''Upvote removed'' else ''Downvote removed'')
             (vote_data_of p None)
     \<and> votePost_twice db pid uid body = db"
    if "parse_voteType body = Some vt" "visibility p = Public \<or> author p = uid" for vt
    using votePost_vote_then_remove
            [where db = db and pid = pid, OF assms(1) that(2) assms(2,3,4) that(1)]
    by (simp add: votePost_twice_def)
  have twice: "votePost_twice db pid uid body = db"
  proof (cases "parse_voteType body = None \<or> (visibility p = Private \<and> author p \<noteq> uid)")
    case True
    with assms(1) have "snd (votePost db pid uid body) = db"
      by (rule votePost_rejected_unchanged [where db = db and pid = pid])
    then show ?thesis by (simp add: votePost_twice_def)
  next
    case False
    then obtain vt where "parse_voteType body = Some vt" "visibility p = Public \<or> author p = uid"
      by (cases "visibility p") auto
    then show ?thesis using admitted by blast
  qed
  have after: "\<exists>p2. votePost_twice db pid uid body pid = Some p2
              \<and> upVote p2 = upVote p \<and> downVote p2 = downVote p
              \<and> uid \<notin> userId ` set (voters p2)"
    using twice absent assms(1) by simp
  have answers: "fst (votePost db pid uid body)
                    = Success 200
                        (if vt = Up then ''Upvoted successfully'' else ''Downvoted successfully'')
                        (vote_data_of (vote p uid vt) (Some vt))
                \<and> getUserVote (vote p uid vt) uid = Some vt
                \<and> snd (votePost db pid uid body) = db(pid \<mapsto> vote p uid vt)
                \<and> fst (votePost (snd (votePost db pid uid body)) pid uid body)
                    = Success 200
                        (if vt = Up then ''Upvote removed'' else ''Downvote removed'')
                        (vote_data_of p None)"
    if "parse_voteType body = Some vt \<and> (visibility p = Public \<or> author p = uid)" for vt
  proof -
    from that have "parse_voteType body = Some vt" "visibility p = Public \<or> author p = uid"
      by simp_all
    from admitted [OF this] getUserVote_vote [of p uid vt] show ?thesis
      by blast
  qed
  from twice after answers show ?thesis
    by blast
qed

theorem votePost_twice_restores_witness:
  "getUserVote (newPost 1) 2 = None
   \<and> snd (votePost [7 \<mapsto> newPost 1] 7 2 (Some ''down''))
       = [7 \<mapsto> vote (newPost 1) 2 Down]
   \<and> votePost_twice [7 \<mapsto> newPost 1] 7 2 (Some ''down'') = [7 \<mapsto> newPost 1]"
proof -
  have h1: "[7 \<mapsto> newPost 1] (7::objectId) = Some (newPost 1)" by simp
  have h2: "upVote (newPost 1) = length (filter (\<lambda>v. voteType v = Up) (voters (newPost 1)))"
    by (simp add: newPost_def)
  have h3: "downVote (newPost 1) = length (filter (\<lambda>v. voteType v = Down) (voters (newPost 1)))"
    by (simp add: newPost_def)
  have h4: "getUserVote (newPost 1) 2 = None"
    by (simp add: getUserVote_def newPost_def)
  have h5: "parse_voteType (Some ''down'') = Some Down"
    by (simp add: parse_voteType_def)
  have h6: "visibility (newPost 1) = Public"
    by (simp add: newPost_def)
  from votePost_twice_restores
         [where db = "[7 \<mapsto> newPost 1]" and pid = 7 and p = "newPost 1" and uid = 2
            and body = "Some ''down''", OF h1 h2 h3 h4] h4 h5 h6
  show ?thesis by auto
qed

text \<open>
  C8. A vote request on a private post by a user who is not its author is rejected and
  leaves the post collection, hence the post's voter list and counts, as it was. With a
  vote type of \<open>up\<close> or \<open>down\<close> the rejection is the authorization error 403; a request
  whose vote type is missing or malformed is rejected earlier, with 400.
\<close>

theorem votePost_private_rejected:
  assumes "db pid = Some p"
    and "visibility p = Private"
    and "author p \<noteq> uid"
  shows "snd (votePost db pid uid body) = db
       \<and> (\<exists>c m. fst (votePost db pid uid body) = Failure c m)
       \<and> (body = Some ''up'' \<or> body = Some ''down''
            \<longrightarrow> fst (votePost db pid uid body) = Failure 403 ''Cannot vote on private post'')"
  using assms by (auto simp: votePost_def parse_voteType_def split: option.splits)

theorem votePost_private_rejected_witness:
  "votePost [7 \<mapsto> \<lparr>author = 1, upVote = 0, downVote = 0, voters = [], visibility = Private\<rparr>]
      7 2 (Some ''up'')
   = (Failure 403 ''Cannot vote on private post'',
      [7 \<mapsto> \<lparr>author = 1, upVote = 0, downVote = 0, voters = [], visibility = Private\<rparr>])"
proof -
  have h1: "[7 \<mapsto> \<lparr>author = 1, upVote = 0, downVote = 0, voters = [], visibility = Private\<rparr>]
              (7::objectId)
              = Some \<lparr>author = 1, upVote = 0, downVote = 0, voters = [], visibility = Private\<rparr>"
    by simp
  have h2: "visibility \<lparr>author = 1, upVote = 0, downVote = 0, voters = [], visibility = Private\<rparr>
              = Private"
    by simp
  have h3: "author \<lparr>author = 1, upVote = 0, downVote = 0, voters = [], visibility = Private\<rparr>
              \<noteq> (2::nat)"
    by simp
  from votePost_private_rejected
         [where db = "[7 \<mapsto> \<lparr>author = 1, upVote = 0, downVote = 0, voters = [],
                                visibility = Private\<rparr>]"
            and pid = 7 and uid = 2 and body = "Some ''up''", OF h1 h2 h3]
  show ?thesis by (simp add: prod_eq_iff)
qed


section \<open>Properties of reporting and moderation\<close>

lemma find_reportedBy_snoc:
  "find (\<lambda>r. reportedBy r = uid) (rs @ [r]) \<noteq> None" if "reportedBy r = uid"
  using that by (induction rs) simp_all

lemma addReport_success:
  assumes "addReport c uid fb rid = (None, c')"
  shows "c' = c\<lparr>reports := reports c @
                   [\<lparr>report_id = rid, reportedBy = uid, feedback = fb, status = Pending\<rparr>],
                isReported := True\<rparr>"
  using assms
  by (auto simp: addReport_def Let_def comment_pre_save_def split: option.splits if_splits)

lemma addReport_again:
  assumes "addReport c uid fb rid = (None, c')"
  shows "addReport c' uid fb' rid' = (Some DuplicateReport, c')"
proof -
  have "find (\<lambda>r. reportedBy r = uid) (reports c') \<noteq> None"
    using addReport_success [OF assms]
      find_reportedBy_snoc [of "\<lparr>report_id = rid, reportedBy = uid, feedback = fb,
        status = Pending\<rparr>" uid "reports c"]
    by simp
  then show ?thesis
    by (auto simp: addReport_def split: option.splits)
qed

text \<open>
  C3. When \<open>addReport\<close> succeeds for a user it has appended the entry
  (user, feedback, pending) to the report list and set \<open>isReported\<close>; any further
  \<open>addReport\<close> by the same user on the resulting comment fails with the duplicate-report
  error and leaves the comment, so also the length of its report list, unchanged.
\<close>

theorem addReport_twice:
  assumes "addReport c uid fb rid = (None, c')"
  shows "reports c' = reports c @
           [\<lparr>report_id = rid, reportedBy = uid, feedback = fb, status = Pending\<rparr>]
       \<and> isReported c' = True
       \<and> addReport c' uid fb' rid' = (Some DuplicateReport, c')
       \<and> length (reports (snd (addReport c' uid fb' rid'))) = length (reports c')"
  using addReport_success [OF assms] addReport_again [OF assms, of fb' rid']
  by simp

theorem addReport_twice_witness:
  "addReport newComment 5 ''Spam or promotional content'' 100
     = (None, \<lparr>isActive = True,
               reports = [\<lparr>report_id = 100, reportedBy = 5,
                           feedback = ''Spam or promotional content'', status = Pending\<rparr>],
               isReported = True, moderationStatus = Approved\<rparr>)
   \<and> addReport \<lparr>isActive = True,
               reports = [\<lparr>report_id = 100, reportedBy = 5,
                           feedback = ''Spam or promotional content'', status = Pending\<rparr>],
               isReported = True, moderationStatus = Approved\<rparr>
        5 ''False information'' 101
     = (Some DuplicateReport,
        \<lparr>isActive = True,
         reports = [\<lparr>report_id = 100, reportedBy = 5,
                     feedback = ''Spam or promotional content'', status = Pending\<rparr>],
         isReported = True, moderationStatus = Approved\<rparr>)"
proof -
  have h: "addReport newComment 5 ''Spam or promotional content'' 100
     = (None, \<lparr>isActive = True,
               reports = [\<lparr>report_id = 100, reportedBy = 5,
                           feedback = ''Spam or promotional content'', status = Pending\<rparr>],
               isReported = True, moderationStatus = Approved\<rparr>)"
    by (simp add: addReport_def newComment_def comment_pre_save_def feedback_enum_def Let_def)
  from h addReport_twice [OF h, of "''False information''" 101]
  show ?thesis by simp
qed

text \<open>
  The same at the controller: after a successful \<open>reportComment\<close>, a second one by the same
  user is answered 400 with the duplicate message and stores nothing.
\<close>

lemma reportComment_twice:
  assumes "reportComment db cid uid (Some fb) rid = (Success 200 m (), db')"
    and "fb' \<noteq> []"
    and "\<exists>c'. db' cid = Some c' \<and> isActive c'"
  shows "reportComment db' cid uid (Some fb') rid'
           = (Failure 400 ''You have already reported this comment'', db')"
proof -
  from assms(1) obtain c c' where c: "db cid = Some c" "addReport c uid fb rid = (None, c')"
    "db' = db(cid \<mapsto> c')"
    by (auto simp: reportComment_def split: option.splits if_splits prod.splits error.splits)
  from c(3) have l: "db' cid = Some c'" by simp
  with assms(3) have a: "isActive c'" by simp
  have d: "addReport c' uid fb' rid' = (Some DuplicateReport, c')"
    using c(2) by (rule addReport_again)
  have "db'(cid \<mapsto> c') = db'" using l by (simp add: map_upd_triv)
  then show ?thesis
    using assms(2) l a d by (simp add: reportComment_def)
qed

text \<open>
  C4. \<open>moderate\<close> always saves; afterwards the moderation status is the one given, the
  comment is inactive when that status is \<open>removed\<close>, and its active flag is as before
  for every other status.
\<close>

theorem moderate_sets_status:
  "fst (moderate c st m) = None
   \<and> moderationStatus (snd (moderate c st m)) = st
   \<and> (st = Removed \<longrightarrow> isActive (snd (moderate c st m)) = False)
   \<and> (st \<noteq> Removed \<longrightarrow> isActive (snd (moderate c st m)) = isActive c)
   \<and> reports (snd (moderate c st m)) = reports c"
  by (simp add: moderate_def Let_def comment_pre_save_def)

theorem moderate_sets_status_witness:
  "moderate \<lparr>isActive = True, reports = [], isReported = False, moderationStatus = Approved\<rparr>
      Removed 9
   = (None, \<lparr>isActive = False, reports = [], isReported = False, moderationStatus = Removed\<rparr>)"
  using moderate_sets_status
          [of "\<lparr>isActive = True, reports = [], isReported = False, moderationStatus = Approved\<rparr>"
              Removed 9]
  by (simp add: moderate_def Let_def comment_pre_save_def)

text \<open>
  The single-comment admin action goes through \<open>moderate\<close>: with no report named, a
  \<open>remove\<close> stores the comment removed, inactive, and with every pending report resolved.
\<close>

lemma handle_action_remove:
  "handle_action c Remove None m
     = (None, c\<lparr>moderationStatus := Removed, isActive := False,
                 reports := resolve_pending Resolved (reports c),
                 isReported := (reports c \<noteq> [])\<rparr>)"
  by (simp add: handle_action_def moderate_def Let_def comment_pre_save_def resolve_pending_def)

text \<open>
  C2 on the code. A comment reported by users 1 and 2, both reports pending, is named
  in a bulk \<open>remove\<close>: it is stored with moderation status \<open>removed\<close> and both reports
  \<open>resolved\<close>, and it is still active.
\<close>

theorem bulk_remove_leaves_active:
  "snd (bulkActionReportedComments
          [10 \<mapsto> \<lparr>isActive = True,
                   reports = [\<lparr>report_id = 100, reportedBy = 1,
                               feedback = ''Spam or promotional content'', status = Pending\<rparr>,
                              \<lparr>report_id = 101, reportedBy = 2,
                               feedback = ''False information'', status = Pending\<rparr>],
                   isReported = True, moderationStatus = Approved\<rparr>]
          (Some [10]) (Some ''remove'')) 10
   = Some \<lparr>isActive = True,
           reports = [\<lparr>report_id = 100, reportedBy = 1,
                       feedback = ''Spam or promotional content'', status = Resolved\<rparr>,
                      \<lparr>report_id = 101, reportedBy = 2,
                       feedback = ''False information'', status = Resolved\<rparr>],
           isReported = True, moderationStatus = Removed\<rparr>"
  by (simp add: bulkActionReportedComments_def parse_action_def updateMany_def bulk_update_def)

text \<open>
  In general: the bulk \<open>remove\<close> stores a listed comment with its active flag as it
  was.
\<close>

lemma bulk_remove_stored:
  assumes "db cid = Some c" and "cid \<in> set ids"
  shows "snd (bulkActionReportedComments db (Some ids) (Some ''remove'')) cid
           = Some (c\<lparr>moderationStatus := Removed,
                     reports := map (\<lambda>r. r\<lparr>status := Resolved\<rparr>) (reports c)\<rparr>)"
proof -
  from assms(2) have "ids \<noteq> []" by auto
  then show ?thesis
    using assms
    by (simp add: bulkActionReportedComments_def parse_action_def updateMany_def bulk_update_def)
qed

text \<open>The invariant of a stored comment and its preservation by every write.\<close>

lemma set_report_status_length:
  "set_report_status rid st rs = Some rs' \<Longrightarrow> length rs' = length rs"
  by (induction rs arbitrary: rs') (auto split: if_splits)

lemma apply_comment_op_flag:
  assumes "isReported c \<longleftrightarrow> reports c \<noteq> []"
  shows "isReported (apply_comment_op c x) \<longleftrightarrow> reports (apply_comment_op c x) \<noteq> []"
proof (cases x)
  case (AddReport uid fb rid)
  with assms show ?thesis
    by (auto simp: addReport_def Let_def comment_pre_save_def split: option.splits)
next
  case (UpdateReportStatus rid st)
  with assms show ?thesis
    by (auto simp: updateReportStatus_def comment_pre_save_def split: option.splits)
next
  case (Moderate st m)
  then show ?thesis
    by (simp add: moderate_def Let_def comment_pre_save_def)
next
  case (HandleAction a reportId m)
  then show ?thesis
    by (auto simp: handle_action_def moderate_def Let_def updateReportStatus_def
        comment_pre_save_def resolve_pending_def split: option.splits)
next
  case (BulkAction a)
  with assms show ?thesis by (simp add: bulk_update_def)
next
  case SoftDelete
  then show ?thesis by (simp add: comment_pre_save_def)
next
  case EditContent
  then show ?thesis by (simp add: comment_pre_save_def)
qed

lemma apply_comment_ops_flag:
  "(isReported c \<longleftrightarrow> reports c \<noteq> []) \<Longrightarrow>
   (isReported (apply_comment_ops c ops) \<longleftrightarrow> reports (apply_comment_ops c ops) \<noteq> [])"
  unfolding apply_comment_ops_def
proof (induction ops arbitrary: c)
  case Nil
  then show ?case by simp
next
  case (Cons x xs)
  from Cons.prems have "isReported (apply_comment_op c x) \<longleftrightarrow> reports (apply_comment_op c x) \<noteq> []"
    by (rule apply_comment_op_flag)
  then show ?case using Cons.IH by simp
qed

text \<open>
  C9. A comment as created, after any sequence of the writing operations (reports, report
  status updates, moderation by either admin path, soft deletion, edits), has
  \<open>isReported\<close> true exactly when its report list is not empty.
\<close>

theorem isReported_iff_reports:
  "isReported (apply_comment_ops newComment ops) \<longleftrightarrow> reports (apply_comment_ops newComment ops) \<noteq> []"
proof -
  have "isReported newComment \<longleftrightarrow> reports newComment \<noteq> []"
    by (simp add: newComment_def comment_pre_save_def)
  then show ?thesis by (rule apply_comment_ops_flag)
qed

theorem isReported_iff_reports_witness:
  "isReported (apply_comment_ops newComment
      [AddReport 5 ''False information'' 100, HandleAction Remove None 9, SoftDelete])
   \<and> reports (apply_comment_ops newComment
      [AddReport 5 ''False information'' 100, HandleAction Remove None 9, SoftDelete]) \<noteq> []"
proof -
  have "reports (apply_comment_ops newComment
      [AddReport 5 ''False information'' 100, HandleAction Remove None 9, SoftDelete]) \<noteq> []"
    by (simp add: apply_comment_ops_def newComment_def addReport_def handle_action_def
        moderate_def comment_pre_save_def resolve_pending_def feedback_enum_def Let_def)
  with isReported_iff_reports
         [of "[AddReport 5 ''False information'' 100, HandleAction Remove None 9, SoftDelete]"]
  show ?thesis by simp
qed


section \<open>Properties of membership\<close>

text \<open>
  C5. \<open>canPost\<close> answers 200 with \<open>canPost\<close> true exactly when the user's tier is gold
  with no expiry stored or an expiry after the clock reading, or the count is below 5.
  So it is true for an effective gold member whatever the count, and is \<open>count < 5\<close> for
  a bronze member. The answer echoes the count, and nothing is written: the handler's
  only result is the response.
\<close>

theorem canPost_iff:
  "\<exists>d. canPost u now n = Success 200 [] d
       \<and> (canCreatePost d \<longleftrightarrow>
            (membership u = Gold
               \<and> (membershipExpiry u = None \<or> (\<exists>e. membershipExpiry u = Some e \<and> now < e)))
            \<or> n < 5)
       \<and> (hasMembership u now \<longrightarrow> canCreatePost d)
       \<and> (membership u = Bronze \<longrightarrow> canCreatePost d = (n < 5))
       \<and> currentPosts d = n"
  by (cases "membershipExpiry u") (auto simp: canPost_def hasMembership_def Let_def)

theorem canPost_iff_witness:
  "canCreatePost (payload (canPost \<lparr>membership = Gold, membershipExpiry = Some 2000,
                                     badges = []\<rparr> 1000 100))
   \<and> \<not> canCreatePost (payload (canPost \<lparr>membership = Gold, membershipExpiry = Some 2000,
                                        badges = []\<rparr> 2000 5))
   \<and> \<not> canCreatePost (payload (canPost newUser 1000 5))
   \<and> canCreatePost (payload (canPost newUser 1000 4))"
  using canPost_iff [of "\<lparr>membership = Gold, membershipExpiry = Some 2000, badges = []\<rparr>" 1000 100]
        canPost_iff [of "\<lparr>membership = Gold, membershipExpiry = Some 2000, badges = []\<rparr>" 2000 5]
        canPost_iff [of newUser 1000 5] canPost_iff [of newUser 1000 4]
  by (auto simp: newUser_def hasMembership_def)

lemma goldBadges_upgradeToGold:
  "goldBadges (upgradeToGold u now) = (if goldBadges u = 0 then 1 else goldBadges u)"
  by (auto simp: goldBadges_def upgradeToGold_def Let_def list_ex_iff filter_empty_conv)

lemma upgradeToGold_calls_snoc:
  "upgradeToGold_calls u (ts @ [t]) = upgradeToGold (upgradeToGold_calls u ts) t"
  by (simp add: upgradeToGold_calls_def)

lemma goldBadges_calls: "goldBadges u \<le> 1 \<Longrightarrow> goldBadges (upgradeToGold_calls u ts) \<le> 1"
proof (induction ts rule: rev_induct)
  case Nil
  then show ?case by (simp add: upgradeToGold_calls_def)
next
  case (snoc t ts)
  then show ?case
    by (simp add: upgradeToGold_calls_snoc goldBadges_upgradeToGold)
qed

lemma upgradeToGold_fields:
  "membership (upgradeToGold u now) = Gold"
  "membershipExpiry (upgradeToGold u now) = Some (now + 365 * (24 * 60 * 60 * 1000))"
  by (simp_all add: upgradeToGold_def Let_def)

lemma upgradeToGold_calls_last:
  "ts \<noteq> [] \<Longrightarrow>
     membership (upgradeToGold_calls u ts) = Gold \<and>
     membershipExpiry (upgradeToGold_calls u ts) = Some (last ts + 365 * (24 * 60 * 60 * 1000))"
  by (cases ts rule: rev_cases) (simp_all add: upgradeToGold_calls_snoc upgradeToGold_fields)

text \<open>
  C6. One call of \<open>upgradeToGold\<close> makes the tier gold, sets the expiry to 365 days after
  the call time, and appends a gold badge exactly when the list holds none. After any
  calls on a user with at most one gold badge (a new user has none) the list holds at
  most one, and after at least one call exactly one for a user who had at most one;
  the expiry is 365 days after the time of the last call.
\<close>

theorem upgradeToGold_contract:
  "membership (upgradeToGold u now) = Gold
   \<and> membershipExpiry (upgradeToGold u now) = Some (now + 365 * (24 * 60 * 60 * 1000))
   \<and> badges (upgradeToGold u now)
       = (if goldBadges u = 0 then badges u @ [\<lparr>badgeType = Gold\<rparr>] else badges u)
   \<and> (goldBadges u \<le> 1 \<longrightarrow> goldBadges (upgradeToGold_calls u ts) \<le> 1)
   \<and> (goldBadges u \<le> 1 \<and> ts \<noteq> [] \<longrightarrow> goldBadges (upgradeToGold_calls u ts) = 1)
   \<and> (ts \<noteq> [] \<longrightarrow>
        membership (upgradeToGold_calls u ts) = Gold \<and>
        membershipExpiry (upgradeToGold_calls u ts)
          = Some (last ts + 365 * (24 * 60 * 60 * 1000)))"
proof -
  have b: "badges (upgradeToGold u now)
       = (if goldBadges u = 0 then badges u @ [\<lparr>badgeType = Gold\<rparr>] else badges u)"
    by (auto simp: goldBadges_def upgradeToGold_def Let_def list_ex_iff filter_empty_conv)
  have one: "goldBadges (upgradeToGold_calls u ts) = 1" if "goldBadges u \<le> 1" "ts \<noteq> []"
  proof (cases ts rule: rev_cases)
    case Nil
    with that show ?thesis by simp
  next
    case (snoc ts' t)
    from that(1) have "goldBadges (upgradeToGold_calls u ts') \<le> 1"
      by (rule goldBadges_calls)
    then show ?thesis
      unfolding snoc upgradeToGold_calls_snoc goldBadges_upgradeToGold by auto
  qed
  show ?thesis
    using b one goldBadges_calls [of u ts] upgradeToGold_calls_last [of ts u]
    by (simp add: upgradeToGold_fields)
qed

theorem upgradeToGold_contract_witness:
  "goldBadges newUser \<le> 1
   \<and> badges (upgradeToGold_calls newUser [1000, 5000, 9000])
       = [\<lparr>badgeType = Bronze\<rparr>, \<lparr>badgeType = Gold\<rparr>]
   \<and> goldBadges (upgradeToGold_calls newUser [1000, 5000, 9000]) = 1
   \<and> membershipExpiry (upgradeToGold_calls newUser [1000, 5000, 9000]) = Some 31536009000"
proof -
  have h: "goldBadges newUser \<le> 1"
    by (simp add: goldBadges_def newUser_def)
  have n: "[1000, 5000, 9000] \<noteq> ([] :: date list)" by simp
  have bs: "badges (upgradeToGold_calls newUser [1000, 5000, 9000])
       = [\<lparr>badgeType = Bronze\<rparr>, \<lparr>badgeType = Gold\<rparr>]"
    by (simp add: upgradeToGold_calls_def upgradeToGold_def newUser_def Let_def)
  from h n bs upgradeToGold_contract [of newUser 0 "[1000, 5000, 9000]"]
  show ?thesis by simp
qed

text \<open>
  C10. \<open>upgradeMembership\<close> decides on the stored tier alone. A user stored as gold is
  answered 400 "User already has gold membership" and the user collection is unchanged,
  whatever the stored expiry; a user stored with another tier is upgraded and saved.
\<close>

theorem upgradeMembership_gold_rejected:
  assumes "users uid = Some u"
  shows "(membership u = Gold \<longrightarrow>
            upgradeMembership users uid now
              = (Failure 400 ''User already has gold membership'', users))
       \<and> (membership u \<noteq> Gold \<longrightarrow>
            upgradeMembership users uid now
              = (Success 200 ''Successfully upgraded to Gold membership!'' (upgradeToGold u now),
                 users(uid \<mapsto> upgradeToGold u now)))"
  using assms by (simp add: upgradeMembership_def Let_def)

theorem upgradeMembership_gold_rejected_witness:
  "\<not> hasMembership \<lparr>membership = Gold, membershipExpiry = Some 1000,
                      badges = [\<lparr>badgeType = Bronze\<rparr>, \<lparr>badgeType = Gold\<rparr>]\<rparr> 5000
   \<and> upgradeMembership
       [3 \<mapsto> \<lparr>membership = Gold, membershipExpiry = Some 1000,
               badges = [\<lparr>badgeType = Bronze\<rparr>, \<lparr>badgeType = Gold\<rparr>]\<rparr>] 3 5000
     = (Failure 400 ''User already has gold membership'',
        [3 \<mapsto> \<lparr>membership = Gold, membershipExpiry = Some 1000,
                badges = [\<lparr>badgeType = Bronze\<rparr>, \<lparr>badgeType = Gold\<rparr>]\<rparr>])"
proof -
  have h: "[3 \<mapsto> \<lparr>membership = Gold, membershipExpiry = Some 1000,
               badges = [\<lparr>badgeType = Bronze\<rparr>, \<lparr>badgeType = Gold\<rparr>]\<rparr>] (3::objectId)
            = Some \<lparr>membership = Gold, membershipExpiry = Some 1000,
               badges = [\<lparr>badgeType = Bronze\<rparr>, \<lparr>badgeType = Gold\<rparr>]\<rparr>"
    by simp
  from upgradeMembership_gold_rejected
         [where users = "[3 \<mapsto> \<lparr>membership = Gold, membershipExpiry = Some 1000,
               badges = [\<lparr>badgeType = Bronze\<rparr>, \<lparr>badgeType = Gold\<rparr>]\<rparr>]"
            and uid = 3 and now = 5000, OF h]
  show ?thesis by (simp add: hasMembership_def)
qed

end
